theory Spec2Isabelle
  imports Main "HOL-Library.AList" "HOL-Library.Product_Lexorder"
begin

section \<open>Python values and primitives\<close>

text \<open>
  The scripts of the workflow exchange JSON: the store file \<^verbatim>\<open>photoAlbums.json\<close> holds one
  JSON object per line, the scraper hands the candidates over as a JSON document. A value
  that \<^verbatim>\<open>json.loads\<close> returns is modelled by the datatype below. Python's \<^verbatim>\<open>None\<close> is
  \<open>JNull\<close>, a \<^verbatim>\<open>dict\<close> is an association list in insertion order (\<open>map_of\<close> reads it,
  \<open>AList.update\<close> writes a key in place or appends it, \<open>AList.delete\<close> removes it, as
  Python's dict does). JSON numbers with a fraction or an exponent (Python floats)
  are not part of the model. A Python \<^verbatim>\<open>str\<close> is a \<open>string\<close>; its characters are the
  code points below 256.
\<close>

datatype json =
    JNull
  | JBool bool
  | JInt int
  | JStr string
  | JArr "json list"
  | JObj "(string \<times> json) list"

type_synonym album = "(string \<times> json) list"

text \<open>The exceptions of Python that the scripts can meet.\<close>

datatype error = AttributeError | TypeError | ValueError | JSONDecodeError

text \<open>\<^verbatim>\<open>bool(x)\<close>, the test of \<^verbatim>\<open>if x:\<close> and \<^verbatim>\<open>if not x:\<close>.\<close>

fun truthy :: "json \<Rightarrow> bool" where
  "truthy JNull = False"
| "truthy (JBool b) = b"
| "truthy (JInt n) = (n \<noteq> 0)"
| "truthy (JStr s) = (s \<noteq> [])"
| "truthy (JArr xs) = (xs \<noteq> [])"
| "truthy (JObj kvs) = (kvs \<noteq> [])"

text \<open>\<^verbatim>\<open>d.get(k)\<close> and \<^verbatim>\<open>d.get(k, default)\<close>.\<close>

definition py_get :: "album \<Rightarrow> string \<Rightarrow> json" where
  "py_get d k = (case map_of d k of None \<Rightarrow> JNull | Some v \<Rightarrow> v)"

definition py_get_default :: "album \<Rightarrow> string \<Rightarrow> json \<Rightarrow> json" where
  "py_get_default d k dflt = (case map_of d k of None \<Rightarrow> dflt | Some v \<Rightarrow> v)"

text \<open>
  \<^verbatim>\<open>x == y\<close> on JSON values: \<^verbatim>\<open>True == 1\<close> and \<^verbatim>\<open>False == 0\<close> hold, lists are compared
  element by element, dicts by their keys whatever the order, and values of different
  kinds are different.
\<close>

fun py_eq :: "json \<Rightarrow> json \<Rightarrow> bool"
  and py_eq_list :: "json list \<Rightarrow> json list \<Rightarrow> bool"
  and py_eq_items :: "(string \<times> json) list \<Rightarrow> (string \<times> json) list \<Rightarrow> bool" where
  "py_eq JNull y = (y = JNull)"
| "py_eq (JBool a) y =
     (case y of JBool b \<Rightarrow> a = b | JInt n \<Rightarrow> (if a then 1 else 0) = n | _ \<Rightarrow> False)"
| "py_eq (JInt m) y =
     (case y of JBool b \<Rightarrow> m = (if b then 1 else 0) | JInt n \<Rightarrow> m = n | _ \<Rightarrow> False)"
| "py_eq (JStr s) y = (y = JStr s)"
| "py_eq (JArr xs) y = (case y of JArr ys \<Rightarrow> py_eq_list xs ys | _ \<Rightarrow> False)"
| "py_eq (JObj kvs) y =
     (case y of JObj kws \<Rightarrow>
        length (remdups (map fst kvs)) = length (remdups (map fst kws)) \<and> py_eq_items kvs kws
      | _ \<Rightarrow> False)"
| "py_eq_list [] ys = (ys = [])"
| "py_eq_list (x # xs) ys =
     (case ys of [] \<Rightarrow> False | y # ys' \<Rightarrow> py_eq x y \<and> py_eq_list xs ys')"
| "py_eq_items [] kws = True"
| "py_eq_items (kv # kvs) kws =
     (case map_of kws (fst kv) of
        None \<Rightarrow> False
      | Some w \<Rightarrow> py_eq (snd kv) w \<and> py_eq_items kvs kws)"



subsection \<open>Strings\<close>

text \<open>
  \<^verbatim>\<open>str.isspace\<close> on one character: the set that \<^verbatim>\<open>strip()\<close>, \<^verbatim>\<open>split()\<close> and the \<^verbatim>\<open>\s\<close> of
  \<^verbatim>\<open>re\<close> use.
\<close>

definition is_space :: "char \<Rightarrow> bool" where
  "is_space c = (c \<in> set [CHR 0x09, CHR 0x0A, CHR 0x0B, CHR 0x0C, CHR 0x0D, CHR 0x1C,
     CHR 0x1D, CHR 0x1E, CHR 0x1F, CHR 0x20, CHR 0x85, CHR 0xA0])"

definition strip :: "string \<Rightarrow> string" where
  "strip s = rev (dropWhile is_space (rev (dropWhile is_space s)))"

text \<open>The decimal digits \<^verbatim>\<open>0\<close> to \<^verbatim>\<open>9\<close>: what \<^verbatim>\<open>\d\<close> matches and \<^verbatim>\<open>int\<close> reads.\<close>

definition is_digit :: "char \<Rightarrow> bool" where
  "is_digit c = (c \<in> set ''0123456789'')"

definition digit_val :: "char \<Rightarrow> nat" where
  "digit_val c = of_char c - 48"

definition nat_of_digits :: "string \<Rightarrow> nat" where
  "nat_of_digits s = foldl (\<lambda>acc c. 10 * acc + digit_val c) 0 s"

definition digit_char :: "nat \<Rightarrow> char" where
  "digit_char n = ''0123456789'' ! (n mod 10)"



text \<open>\<^verbatim>\<open>str(n)\<close> for a natural number.\<close>

fun show_nat_aux :: "nat \<Rightarrow> nat \<Rightarrow> string \<Rightarrow> string" where
  "show_nat_aux 0 n acc = acc"
| "show_nat_aux (Suc fuel) n acc =
     (if n < 10 then digit_char n # acc
      else show_nat_aux fuel (n div 10) (digit_char n # acc))"

definition show_nat :: "nat \<Rightarrow> string" where
  "show_nat n = show_nat_aux (Suc n) n []"

text \<open>\<^verbatim>\<open>s.split(sep)\<close> for a separator of one or more characters.\<close>

fun starts_with :: "string \<Rightarrow> string \<Rightarrow> bool" where
  "starts_with [] s = True"
| "starts_with (p # ps) [] = False"
| "starts_with (p # ps) (c # cs) = (p = c \<and> starts_with ps cs)"

fun contains :: "string \<Rightarrow> string \<Rightarrow> bool" where
  "contains t [] = (t = [])"
| "contains t (c # cs) = (starts_with t (c # cs) \<or> contains t cs)"

fun split_aux :: "nat \<Rightarrow> string \<Rightarrow> string \<Rightarrow> string \<Rightarrow> string list" where
  "split_aux skip sep cur [] = [rev cur]"
| "split_aux (Suc k) sep cur (c # cs) = split_aux k sep cur cs"
| "split_aux 0 sep cur (c # cs) =
     (if starts_with sep (c # cs) then rev cur # split_aux (length sep - 1) sep [] cs
      else split_aux 0 sep (c # cur) cs)"

definition split_on :: "string \<Rightarrow> string \<Rightarrow> string list" where
  "split_on sep s = split_aux 0 sep [] s"



text \<open>\<^verbatim>\<open>str.lower\<close> on one character.\<close>

definition py_lower_char :: "char \<Rightarrow> char" where
  "py_lower_char c =
     (let n = (of_char c :: nat) in
      if (65 \<le> n \<and> n \<le> 90) \<or> (192 \<le> n \<and> n \<le> 222 \<and> n \<noteq> 215) then char_of (n + 32) else c)"

subsection \<open>Integers from strings\<close>

text \<open>
  \<^verbatim>\<open>int(s)\<close> for a string: white space around, an optional sign, and decimal digits in
  which single underscores may separate digits. \<^verbatim>\<open>int(x)\<close> raises \<^verbatim>\<open>ValueError\<close> for any
  other string and \<^verbatim>\<open>TypeError\<close> for \<^verbatim>\<open>None\<close>, a list or a dict. The interpreter's limit
  on the number of digits is not modelled.
\<close>

fun digits_underscores :: "bool \<Rightarrow> string \<Rightarrow> bool" where
  "digits_underscores prev [] = prev"
| "digits_underscores prev (c # cs) =
     (if is_digit c then digits_underscores True cs
      else if c = CHR ''_'' \<and> prev then digits_underscores False cs
      else False)"

definition unsigned_literal :: "string \<Rightarrow> int option" where
  "unsigned_literal s =
     (if digits_underscores False s
      then Some (int (nat_of_digits (filter (\<lambda>c. c \<noteq> CHR ''_'') s)))
      else None)"

definition int_literal :: "string \<Rightarrow> int option" where
  "int_literal s =
     (case strip s of
        [] \<Rightarrow> None
      | c # cs \<Rightarrow>
          if c = CHR ''-'' then map_option uminus (unsigned_literal cs)
          else if c = CHR ''+'' then unsigned_literal cs
          else unsigned_literal (c # cs))"

fun py_int :: "json \<Rightarrow> error + int" where
  "py_int JNull = Inl TypeError"
| "py_int (JBool b) = Inr (if b then 1 else 0)"
| "py_int (JInt n) = Inr n"
| "py_int (JStr s) = (case int_literal s of None \<Rightarrow> Inl ValueError | Some n \<Rightarrow> Inr n)"
| "py_int (JArr xs) = Inl TypeError"
| "py_int (JObj kvs) = Inl TypeError"

section \<open>Dates\<close>

text \<open>
  \<^verbatim>\<open>datetime.strptime\<close> compiles its format into a regular expression that has to match
  the whole string, and then builds the date, which fails for a day the month does not
  have and for the year 0. Both formats of the scripts are modelled: \<^verbatim>\<open>"%b %d, %Y"\<close>
  (\<^verbatim>\<open>%b\<close> is the English abbreviation of the month in any case, blanks of the format match
  one or more white space characters, \<^verbatim>\<open>%d\<close> is one or two digits, \<^verbatim>\<open>%Y\<close> four digits) and
  \<^verbatim>\<open>"%Y-%m-%d"\<close>. The result is \<open>None\<close> where \<^verbatim>\<open>strptime\<close> raises \<^verbatim>\<open>ValueError\<close>.
\<close>

definition month_names :: "string list" where
  "month_names = [''jan'', ''feb'', ''mar'', ''apr'', ''may'', ''jun'',
                  ''jul'', ''aug'', ''sep'', ''oct'', ''nov'', ''dec'']"

fun index_of :: "string \<Rightarrow> string list \<Rightarrow> nat \<Rightarrow> nat option" where
  "index_of x [] i = None"
| "index_of x (y # ys) i = (if x = y then Some i else index_of x ys (Suc i))"

definition month_of :: "string \<Rightarrow> nat option" where
  "month_of s = index_of (map py_lower_char s) month_names 1"

definition is_leap :: "nat \<Rightarrow> bool" where
  "is_leap y = (y mod 4 = 0 \<and> (y mod 100 \<noteq> 0 \<or> y mod 400 = 0))"

definition days_in_month :: "nat \<Rightarrow> nat \<Rightarrow> nat" where
  "days_in_month y m =
     (if m = 2 then (if is_leap y then 29 else 28)
      else if m = 4 \<or> m = 6 \<or> m = 9 \<or> m = 11 then 30 else 31)"

definition valid_date :: "nat \<Rightarrow> nat \<Rightarrow> nat \<Rightarrow> bool" where
  "valid_date y m d = (1 \<le> y \<and> 1 \<le> m \<and> m \<le> 12 \<and> 1 \<le> d \<and> d \<le> days_in_month y m)"

text \<open>
  The group of \<^verbatim>\<open>%d\<close> is \<^verbatim>\<open>3[0-1]|[1-2]\d|0[1-9]|[1-9]| [1-9]\<close> and the group of \<^verbatim>\<open>%m\<close> is
  \<^verbatim>\<open>1[0-2]|0[1-9]|[1-9]\<close>: a token is one digit from 1 to 9 or two digits in range; the day
  may also be a blank and one digit.
\<close>

definition number_token :: "nat \<Rightarrow> string \<Rightarrow> nat option" where
  "number_token hi s =
     (case s of
        [c] \<Rightarrow> if is_digit c \<and> c \<noteq> CHR ''0'' then Some (digit_val c) else None
      | [c1, c2] \<Rightarrow>
          if is_digit c1 \<and> is_digit c2 \<and> 1 \<le> nat_of_digits s \<and> nat_of_digits s \<le> hi
          then Some (nat_of_digits s) else None
      | _ \<Rightarrow> None)"

definition day_token :: "string \<Rightarrow> nat option" where
  "day_token s =
     (case s of
        [c1, c2] \<Rightarrow> if c1 = CHR '' '' then number_token 31 [c2] else number_token 31 s
      | _ \<Rightarrow> number_token 31 s)"

definition year_token :: "string \<Rightarrow> nat option" where
  "year_token s = (if length s = 4 \<and> list_all is_digit s then Some (nat_of_digits s) else None)"

definition make_date :: "nat option \<Rightarrow> nat option \<Rightarrow> nat option \<Rightarrow> (nat \<times> nat \<times> nat) option" where
  "make_date yo mo dd =
     (case (yo, mo, dd) of
        (Some y, Some m, Some d) \<Rightarrow> if valid_date y m d then Some (y, m, d) else None
      | _ \<Rightarrow> None)"

definition strptime_b_d_Y :: "string \<Rightarrow> (nat \<times> nat \<times> nat) option" where
  "strptime_b_d_Y s =
     (let after_month = drop 3 s;
          after_blank = dropWhile is_space after_month;
          day = takeWhile (\<lambda>c. c \<noteq> CHR '','') after_blank;
          after_day = dropWhile (\<lambda>c. c \<noteq> CHR '','') after_blank;
          after_comma = drop 1 after_day;
          year = dropWhile is_space after_comma
      in if length s < 3 \<or> after_blank = after_month \<or> after_day = [] \<or> year = after_comma
         then None
         else make_date (year_token year) (month_of (take 3 s)) (number_token 31 day))"

definition strptime_Y_m_d :: "string \<Rightarrow> (nat \<times> nat \<times> nat) option" where
  "strptime_Y_m_d s =
     (case split_on ''-'' (drop 4 s) of
        [e, m, d] \<Rightarrow>
          if e = [] then make_date (year_token (take 4 s)) (number_token 12 m) (day_token d)
          else None
      | _ \<Rightarrow> None)"

text \<open>
  \<^verbatim>\<open>dt.strftime("%Y-%m-%d")\<close>: the year on four digits, month and day on two, padded with
  zeros.
\<close>

definition pad2 :: "nat \<Rightarrow> string" where
  "pad2 n = [digit_char (n div 10), digit_char n]"

definition pad4 :: "nat \<Rightarrow> string" where
  "pad4 n = [digit_char (n div 1000), digit_char (n div 100), digit_char (n div 10), digit_char n]"

definition strftime_Y_m_d :: "nat \<times> nat \<times> nat \<Rightarrow> string" where
  "strftime_Y_m_d ymd = (case ymd of (y, m, d) \<Rightarrow> pad4 y @ ''-'' @ pad2 m @ ''-'' @ pad2 d)"

text \<open>
  The regular expression \<^verbatim>\<open>^\d{4}-\d{2}-\d{2}$\<close> on a stripped string: the canonical form
  of a date.
\<close>

definition is_canonical :: "string \<Rightarrow> bool" where
  "is_canonical s =
     (case s of
        [y1, y2, y3, y4, a, m1, m2, b, d1, d2] \<Rightarrow>
          list_all is_digit [y1, y2, y3, y4, m1, m2, d1, d2] \<and> a = CHR ''-'' \<and> b = CHR ''-''
      | _ \<Rightarrow> False)"

section \<open>The store file\<close>

text \<open>
  \<^verbatim>\<open>photoAlbums.json\<close> is read line by line. Every reader strips the line, skips it when
  nothing is left and hands it to \<^verbatim>\<open>json.loads\<close> otherwise. A line of the file is modelled
  by what these two steps make of it: \<open>Blank\<close> when the stripped line is empty,
  \<open>Unparsable\<close> when \<^verbatim>\<open>json.loads\<close> raises, \<open>Parsed v\<close> when it returns \<open>v\<close>. Every writer
  writes \<^verbatim>\<open>json.dumps(album)\<close> and a newline for each album, which reads back as
  \<open>Parsed album\<close>. A file that does not exist reads as the empty list of lines. Failures
  of the file system are not modelled.
\<close>

datatype line = Blank | Unparsable | Parsed json

type_synonym store = "line list"

definition write_database :: "json list \<Rightarrow> store" where
  "write_database albums = map Parsed albums"

section \<open>Ingest: \<^verbatim>\<open>unified_add_albums.py\<close>\<close>

text \<open>
  \<^verbatim>\<open>generate_unique_id\<close> returns a fresh random UUID. The model takes the sequence of the
  identifiers that the calls return as a parameter \<open>uuid\<close> and threads the number of calls
  made so far.
\<close>

text \<open>
  \<^verbatim>\<open>convert_date_to_storage_format\<close>. \<open>current_year\<close> is \<^verbatim>\<open>datetime.now().year\<close>. The body
  after the first test, for a string:
\<close>

definition convert_str :: "nat \<Rightarrow> string \<Rightarrow> string" where
  "convert_str current_year date_string =
     (if is_canonical (strip date_string) then strip date_string
      else if CHR '','' \<in> set date_string then
        (case strptime_b_d_Y (strip date_string) of
           Some dt \<Rightarrow> strftime_Y_m_d dt
         | None \<Rightarrow> date_string)
      else
        (case strptime_b_d_Y (strip date_string @ '', '' @ show_nat current_year) of
           Some dt \<Rightarrow> strftime_Y_m_d dt
         | None \<Rightarrow> date_string))"


text \<open>
  The callers write \<^verbatim>\<open>convert_date_to_storage_format(x) if x else None\<close>: the result is
  \<^verbatim>\<open>None\<close> or a string.
\<close>

definition convert_truthy :: "nat \<Rightarrow> json \<Rightarrow> error + string" where
  "convert_truthy current_year x =
     (case x of JStr s \<Rightarrow> Inr (convert_str current_year s) | _ \<Rightarrow> Inl AttributeError)"

definition convert_if_set :: "nat \<Rightarrow> json \<Rightarrow> error + string option" where
  "convert_if_set current_year x =
     (if truthy x then
        (case convert_truthy current_year x of Inl e \<Rightarrow> Inl e | Inr s \<Rightarrow> Inr (Some s))
      else Inr None)"

text \<open>
  \<^verbatim>\<open>normalize_date_range\<close>, called on the converted dates: \<^verbatim>\<open>None\<close> and the empty string are
  the values that \<^verbatim>\<open>if not x\<close> takes for absent.
\<close>

definition normalize_date_range :: "nat \<Rightarrow> string option \<Rightarrow> string option \<Rightarrow> string option" where
  "normalize_date_range current_year start_date end_date =
     (case start_date of
        None \<Rightarrow> None
      | Some s \<Rightarrow>
          if s = [] then None
          else
            let start_normalized = convert_str current_year s in
            (case end_date of
               None \<Rightarrow> Some start_normalized
             | Some e \<Rightarrow>
                 if e = [] then Some start_normalized
                 else Some (start_normalized @ ''--'' @ convert_str current_year e)))"

text \<open>
  The keys of \<^verbatim>\<open>albums_dict\<close> are the \<^verbatim>\<open>url\<close> values of the stored albums. Python hashes
  \<^verbatim>\<open>True\<close> and \<^verbatim>\<open>1\<close> to the same key and refuses lists and dicts as keys.
\<close>

datatype key = KNone | KInt int | KStr string

fun hash_key :: "json \<Rightarrow> key option" where
  "hash_key JNull = Some KNone"
| "hash_key (JBool b) = Some (KInt (if b then 1 else 0))"
| "hash_key (JInt n) = Some (KInt n)"
| "hash_key (JStr s) = Some (KStr s)"
| "hash_key (JArr xs) = None"
| "hash_key (JObj kvs) = None"

type_synonym albums_dict = "(key \<times> album) list"

fun read_loop ::
  "(nat \<Rightarrow> string) \<Rightarrow> line list \<Rightarrow> albums_dict \<Rightarrow> nat \<Rightarrow> error + (albums_dict \<times> nat)" where
  "read_loop uuid [] albums_dict n = Inr (albums_dict, n)"
| "read_loop uuid (Blank # f) albums_dict n = read_loop uuid f albums_dict n"
| "read_loop uuid (Unparsable # f) albums_dict n = Inl JSONDecodeError"
| "read_loop uuid (Parsed v # f) albums_dict n =
     (case v of
        JObj album \<Rightarrow>
          let url = py_get_default album ''url'' (JStr []) in
          if truthy url then
            let album' = (if map_of album ''id'' = None
                          then AList.update ''id'' (JStr (uuid n)) album else album);
                n' = (if map_of album ''id'' = None then Suc n else n)
            in (case hash_key url of
                  None \<Rightarrow> Inl TypeError
                | Some k \<Rightarrow> read_loop uuid f (AList.update k album' albums_dict) n')
          else read_loop uuid f albums_dict n
      | _ \<Rightarrow> Inl AttributeError)"

definition read_existing_albums :: "(nat \<Rightarrow> string) \<Rightarrow> store \<Rightarrow> nat \<Rightarrow> albums_dict \<times> nat" where
  "read_existing_albums uuid f n =
     (case read_loop uuid f [] n of Inl e \<Rightarrow> ([], n) | Inr r \<Rightarrow> r)"

definition write_albums_database :: "albums_dict \<Rightarrow> store" where
  "write_albums_database albums_dict = write_database (map (\<lambda>kv. JObj (snd kv)) albums_dict)"

text \<open>Lines 246 to 249 and 350 to 353: the identifier of an existing album.\<close>

definition ensure_id :: "(nat \<Rightarrow> string) \<Rightarrow> album \<Rightarrow> nat \<Rightarrow> album \<times> json \<times> nat" where
  "ensure_id uuid existing_album n =
     (let album_id = py_get existing_album ''id'' in
      if \<not> truthy album_id
      then (AList.update ''id'' (JStr (uuid n)) existing_album, JStr (uuid n), Suc n)
      else (existing_album, album_id, n))"

text \<open>
  Lines 255 to 269 and 355 to 373, the same code in both functions: the \<^verbatim>\<open>try\<close> block that
  turns both counts into integers, with the fall back to the raw values, and the update.
\<close>

definition coerce_counts :: "json \<Rightarrow> json \<Rightarrow> json \<times> json" where
  "coerce_counts new_item_count existing_item_count =
     (case py_int new_item_count of
        Inl e \<Rightarrow> (new_item_count, existing_item_count)
      | Inr n \<Rightarrow>
          if existing_item_count = JNull then (JInt n, JNull)
          else (case py_int existing_item_count of
                  Inl e \<Rightarrow> (new_item_count, existing_item_count)
                | Inr m \<Rightarrow> (JInt n, JInt m)))"

definition update_item_count :: "album \<Rightarrow> json \<Rightarrow> album \<times> bool" where
  "update_item_count existing_album new_item_count =
     (let existing_item_count = py_get existing_album ''itemCount'' in
      if new_item_count \<noteq> JNull then
        (case coerce_counts new_item_count existing_item_count of
           (new_count_int, existing_count_int) \<Rightarrow>
             if existing_count_int = JNull \<or> py_eq existing_count_int (JInt 0) then
               if \<not> py_eq existing_count_int new_count_int
               then (AList.update ''itemCount'' new_count_int existing_album, True)
               else (existing_album, False)
             else (existing_album, False))
      else (existing_album, False))"

text \<open>Lines 272 to 289: the \<^verbatim>\<open>dateRange\<close> of an existing album.\<close>

definition normalized_existing_range :: "nat \<Rightarrow> album \<Rightarrow> error + string option" where
  "normalized_existing_range current_year existing_album =
     (let existing_start = py_get existing_album ''startDate'';
          existing_end = py_get existing_album ''endDate''
      in if truthy existing_start then
           (case convert_truthy current_year existing_start of
              Inl e \<Rightarrow> Inl e
            | Inr normalized_existing_start \<Rightarrow>
                if truthy existing_end then
                  (case convert_truthy current_year existing_end of
                     Inl e \<Rightarrow> Inl e
                   | Inr normalized_existing_end \<Rightarrow>
                       Inr (Some (normalized_existing_start @ ''--'' @ normalized_existing_end)))
                else Inr (Some normalized_existing_start))
         else Inr None)"

definition update_date_range :: "nat \<Rightarrow> album \<Rightarrow> string option \<Rightarrow> error + album \<times> bool" where
  "update_date_range current_year existing_album date_range =
     (case date_range of
        None \<Rightarrow> Inr (existing_album, False)
      | Some r \<Rightarrow>
          if r = [] then Inr (existing_album, False)
          else
            (case normalized_existing_range current_year existing_album of
               Inl e \<Rightarrow> Inl e
             | Inr existing_range \<Rightarrow>
                 if existing_range \<noteq> Some r
                 then Inr (AList.update ''dateRange'' (JStr r) existing_album, True)
                 else Inr (existing_album, False)))"

text \<open>Lines 291 to 303: \<^verbatim>\<open>startDate\<close> and \<^verbatim>\<open>endDate\<close> of an existing album.\<close>

definition update_date_field ::
  "nat \<Rightarrow> string \<Rightarrow> album \<Rightarrow> string option \<Rightarrow> error + album \<times> bool" where
  "update_date_field current_year field existing_album new_date =
     (case new_date of
        None \<Rightarrow> Inr (existing_album, False)
      | Some d \<Rightarrow>
          if d = [] then Inr (existing_album, False)
          else
            (case convert_if_set current_year (py_get existing_album field) of
               Inl e \<Rightarrow> Inl e
             | Inr normalized_existing \<Rightarrow>
                 if normalized_existing \<noteq> Some d
                 then Inr (AList.update field (JStr d) existing_album, True)
                 else Inr (existing_album, False)))"

text \<open>
  \<^verbatim>\<open>process_single_album\<close>. The result is the dictionary after the call, the triple
  \<^verbatim>\<open>(unchanged_id, updated_id, added_id)\<close> that the function returns, and the number of
  identifiers generated. An exception leaves the function and is caught in \<^verbatim>\<open>main\<close>, which
  writes nothing.
\<close>

definition update_existing_single ::
  "(nat \<Rightarrow> string) \<Rightarrow> nat \<Rightarrow> album \<Rightarrow> json \<Rightarrow> string option \<Rightarrow> string option \<Rightarrow> string option \<Rightarrow> nat
     \<Rightarrow> error + (album \<times> (json \<times> json \<times> json) \<times> nat)" where
  "update_existing_single uuid current_year existing_album new_item_count date_range
       start_date end_date n =
     (case ensure_id uuid existing_album n of
        (album1, album_id, n') \<Rightarrow>
          (case update_item_count album1 new_item_count of
             (album2, updated2) \<Rightarrow>
               (case update_date_range current_year album2 date_range of
                  Inl e \<Rightarrow> Inl e
                | Inr (album3, updated3) \<Rightarrow>
                    (case update_date_field current_year ''startDate'' album3 start_date of
                       Inl e \<Rightarrow> Inl e
                     | Inr (album4, updated4) \<Rightarrow>
                         (case update_date_field current_year ''endDate'' album4 end_date of
                            Inl e \<Rightarrow> Inl e
                          | Inr (album5, updated5) \<Rightarrow>
                              if updated2 \<or> updated3 \<or> updated4 \<or> updated5
                              then Inr (album5, (JNull, album_id, JNull), n')
                              else Inr (album5, (album_id, JNull, JNull), n'))))))"

definition optional_field :: "string \<Rightarrow> string option \<Rightarrow> album" where
  "optional_field field v =
     (case v of None \<Rightarrow> [] | Some s \<Rightarrow> if s = [] then [] else [(field, JStr s)])"

definition process_single_album ::
  "(nat \<Rightarrow> string) \<Rightarrow> nat \<Rightarrow> album \<Rightarrow> albums_dict \<Rightarrow> nat
     \<Rightarrow> error + (albums_dict \<times> (json \<times> json \<times> json) \<times> nat)" where
  "process_single_album uuid current_year album_data albums_dict n =
     (case py_get_default album_data ''url'' (JStr []) of
        JStr raw_url \<Rightarrow>
          let url = strip raw_url in
          if url = [] then Inr (albums_dict, (JNull, JNull, JNull), n)
          else
            let title = py_get_default album_data ''title'' (JStr ''Untitled Album'');
                new_item_count = py_get album_data ''itemCount'';
                raw_start_date = py_get album_data ''startDate'';
                raw_end_date = py_get album_data ''endDate''
            in
            (case convert_if_set current_year raw_start_date of
               Inl e \<Rightarrow> Inl e
             | Inr start_date \<Rightarrow>
                 (case convert_if_set current_year raw_end_date of
                    Inl e \<Rightarrow> Inl e
                  | Inr end_date \<Rightarrow>
                      let date_range = normalize_date_range current_year start_date end_date in
                      (case map_of albums_dict (KStr url) of
                         Some existing_album \<Rightarrow>
                           (case update_existing_single uuid current_year existing_album
                                   new_item_count date_range start_date end_date n of
                              Inl e \<Rightarrow> Inl e
                            | Inr (album', ids, n') \<Rightarrow>
                                Inr (AList.update (KStr url) album' albums_dict, ids, n'))
                       | None \<Rightarrow>
                           let album_id = JStr (uuid n);
                               new_album =
                                 [(''id'', album_id), (''url'', JStr url), (''title'', title),
                                  (''tags'', JArr [])]
                                 @ (if new_item_count \<noteq> JNull
                                    then [(''itemCount'', new_item_count)] else [])
                                 @ optional_field ''dateRange'' date_range
                                 @ optional_field ''startDate'' start_date
                                 @ optional_field ''endDate'' end_date
                           in Inr (AList.update (KStr url) new_album albums_dict,
                                   (JNull, JNull, album_id), Suc n))))
      | _ \<Rightarrow> Inl AttributeError)"

text \<open>
  \<^verbatim>\<open>process_bulk_albums\<close>: the loop over the candidates, with the three lists of
  identifiers.
\<close>

fun bulk_loop ::
  "(nat \<Rightarrow> string) \<Rightarrow> json list \<Rightarrow> albums_dict \<Rightarrow> json list \<Rightarrow> json list \<Rightarrow> json list \<Rightarrow> nat
     \<Rightarrow> error + (albums_dict \<times> json list \<times> json list \<times> json list \<times> nat)" where
  "bulk_loop uuid [] albums_dict unchanged_ids updated_ids added_ids n =
     Inr (albums_dict, unchanged_ids, updated_ids, added_ids, n)"
| "bulk_loop uuid (album_input # rest) albums_dict unchanged_ids updated_ids added_ids n =
     (case album_input of
        JObj input \<Rightarrow>
          (case py_get_default input ''url'' (JStr []) of
             JStr raw_url \<Rightarrow>
               let url = strip raw_url in
               if url = [] then bulk_loop uuid rest albums_dict unchanged_ids updated_ids added_ids n
               else
                 let new_item_count = py_get input ''itemCount'' in
                 (case map_of albums_dict (KStr url) of
                    Some existing_album \<Rightarrow>
                      (case ensure_id uuid existing_album n of
                         (album1, album_id, n') \<Rightarrow>
                           (case update_item_count album1 new_item_count of
                              (album2, should_update) \<Rightarrow>
                                if should_update
                                then bulk_loop uuid rest (AList.update (KStr url) album2 albums_dict)
                                       unchanged_ids (updated_ids @ [album_id]) added_ids n'
                                else bulk_loop uuid rest (AList.update (KStr url) album2 albums_dict)
                                       (unchanged_ids @ [album_id]) updated_ids added_ids n'))
                  | None \<Rightarrow>
                      let album_id = JStr (uuid n);
                          new_album =
                            [(''id'', album_id), (''url'', JStr url),
                             (''title'', py_get_default input ''title'' (JStr ''Untitled Album'')),
                             (''tags'', JArr [])]
                            @ (if new_item_count \<noteq> JNull
                               then [(''itemCount'', new_item_count)] else [])
                      in bulk_loop uuid rest (AList.update (KStr url) new_album albums_dict)
                           unchanged_ids updated_ids (added_ids @ [album_id]) (Suc n))
           | _ \<Rightarrow> Inl AttributeError)
      | _ \<Rightarrow> Inl AttributeError)"

text \<open>
  \<^verbatim>\<open>for album_input in albums_data\<close>: a list gives its elements, a string its characters,
  a dict its keys; anything else is not iterable.
\<close>

fun py_iter :: "json \<Rightarrow> error + json list" where
  "py_iter (JArr xs) = Inr xs"
| "py_iter (JStr s) = Inr (map (\<lambda>c. JStr [c]) s)"
| "py_iter (JObj kvs) = Inr (map (\<lambda>kv. JStr (fst kv)) kvs)"
| "py_iter JNull = Inl TypeError"
| "py_iter (JBool b) = Inl TypeError"
| "py_iter (JInt n) = Inl TypeError"

definition process_bulk_albums ::
  "(nat \<Rightarrow> string) \<Rightarrow> json \<Rightarrow> albums_dict \<Rightarrow> nat
     \<Rightarrow> error + (albums_dict \<times> json list \<times> json list \<times> json list \<times> nat)" where
  "process_bulk_albums uuid albums_data albums_dict n =
     (case py_iter albums_data of
        Inl e \<Rightarrow> Inl e
      | Inr inputs \<Rightarrow> bulk_loop uuid inputs albums_dict [] [] [] n)"

text \<open>
  \<^verbatim>\<open>main\<close>, from the parsed argument \<open>data\<close> on. The report for Alfred that the function
  prints at the end is not modelled; \<open>written\<close> is the content of the store file when the
  run rewrote it.
\<close>

datatype exit_reason = ScraperError | InvalidDataFormat | Raised error

datatype ingest_result =
    Failed exit_reason
  | NoAlbumsToProcess
  | Reported (unchanged_ids: "json list") (updated_ids: "json list") (added_ids: "json list")
      (written: "store option")

definition finish_ingest :: "albums_dict \<Rightarrow> json list \<Rightarrow> json list \<Rightarrow> json list \<Rightarrow> ingest_result" where
  "finish_ingest albums_dict unchanged updated added =
     Reported unchanged updated added
       (if updated \<noteq> [] \<or> added \<noteq> [] then Some (write_albums_database albums_dict) else None)"

definition main_ingest :: "(nat \<Rightarrow> string) \<Rightarrow> nat \<Rightarrow> json \<Rightarrow> store \<Rightarrow> ingest_result" where
  "main_ingest uuid current_year data f =
     (case data of
        JObj d \<Rightarrow>
          if map_of d ''error'' \<noteq> None then Failed ScraperError
          else
            (case read_existing_albums uuid f 0 of
               (albums_dict, n) \<Rightarrow>
                 let data_type = py_get d ''type'' in
                 if py_eq data_type (JStr ''single'') then
                   (case process_single_album uuid current_year d albums_dict n of
                      Inl e \<Rightarrow> Failed (Raised e)
                    | Inr (albums_dict', (unchanged_id, updated_id, added_id), n') \<Rightarrow>
                        finish_ingest albums_dict'
                          (if truthy unchanged_id then [unchanged_id] else [])
                          (if truthy updated_id then [updated_id] else [])
                          (if truthy added_id then [added_id] else []))
                 else if py_eq data_type (JStr ''bulk'') then
                   let albums_data = py_get_default d ''albums'' (JArr []) in
                   if \<not> truthy albums_data then NoAlbumsToProcess
                   else
                     (case process_bulk_albums uuid albums_data albums_dict n of
                        Inl e \<Rightarrow> Failed (Raised e)
                      | Inr (albums_dict', unchanged, updated, added, n') \<Rightarrow>
                          finish_ingest albums_dict' unchanged updated added)
                 else Failed InvalidDataFormat)
      | _ \<Rightarrow> Failed InvalidDataFormat)"

subsection \<open>The merge rule in the words of the specification\<close>

text \<open>
  The specification lets an ingest overwrite \<^verbatim>\<open>itemCount\<close> only if the candidate supplies a
  value, the existing value is absent or zero, and the new value differs from it; both
  sides are compared as integers when both can be turned into integers, and as they are
  otherwise. \<open>present_nonzero\<close> is an existing count that is neither absent nor zero.
\<close>

definition overwrite_permitted :: "json \<Rightarrow> json \<Rightarrow> bool" where
  "overwrite_permitted existing new =
     (new \<noteq> JNull \<and>
      (existing = JNull \<or>
       (case (py_int new, py_int existing) of
          (Inr n, Inr m) \<Rightarrow> m = 0 \<and> n \<noteq> m
        | _ \<Rightarrow> py_eq existing (JInt 0) \<and> \<not> py_eq existing new)))"


text \<open>The key under which a candidate is looked up, and the count it supplies.\<close>

definition candidate_key :: "json \<Rightarrow> key option" where
  "candidate_key c =
     (case c of
        JObj input \<Rightarrow>
          (case py_get_default input ''url'' (JStr []) of
             JStr raw_url \<Rightarrow> if strip raw_url = [] then None else Some (KStr (strip raw_url))
           | _ \<Rightarrow> None)
      | _ \<Rightarrow> None)"

definition candidate_count :: "json \<Rightarrow> json" where
  "candidate_count c = (case c of JObj input \<Rightarrow> py_get input ''itemCount'' | _ \<Rightarrow> JNull)"


section \<open>Reading the store as a list\<close>

text \<open>
  The other scripts read the store into a list. The loop appends every parsed line and
  ends at the first line that \<^verbatim>\<open>json.loads\<close> refuses; the flag tells whether it ended that way.
  \<^verbatim>\<open>search_albums.py\<close>, \<^verbatim>\<open>edit_date.py\<close> and \<^verbatim>\<open>delete_album.py\<close> then return the empty list
  (\<^verbatim>\<open>except Exception: return []\<close>), \<^verbatim>\<open>toggle_tag.py\<close> returns the albums read so far
  (\<^verbatim>\<open>except Exception: return albums\<close>).
\<close>

fun read_lines :: "line list \<Rightarrow> json list \<Rightarrow> json list \<times> bool" where
  "read_lines [] albums = (albums, False)"
| "read_lines (Blank # f) albums = read_lines f albums"
| "read_lines (Unparsable # f) albums = (albums, True)"
| "read_lines (Parsed v # f) albums = read_lines f (albums @ [v])"

definition read_database :: "store \<Rightarrow> json list" where
  "read_database f = (case read_lines f [] of (albums, raised) \<Rightarrow> if raised then [] else albums)"


section \<open>Search: \<^verbatim>\<open>search_albums.py\<close>\<close>


















text \<open>
  One entry of \<^verbatim>\<open>matching_albums\<close>. The two strings made for display only (the title with
  the count, the subtitle) are not modelled, but the exceptions of their construction
  are: \<^verbatim>\<open>item_count > 0\<close> needs a number and \<^verbatim>\<open>', '.join(tags)\<close> strings.
\<close>

record matched =
  m_clean_title :: string
  m_url :: json
  m_tags :: json
  m_item_count :: json
  m_date_range_edit :: string
  m_start_date :: json
  m_end_date :: json
  m_sort_date :: "nat \<times> nat \<times> nat"





text \<open>
  The key of \<^verbatim>\<open>matching_albums.sort\<close>. Python compares the tuples lexicographically and
  its sort is stable, as \<open>sort_key\<close> is.
\<close>

definition sort_key_of :: "matched \<Rightarrow> nat \<times> int \<times> int \<times> int" where
  "sort_key_of x =
     (case m_sort_date x of
        (y, m, d) \<Rightarrow> (if (y, m, d) = (0, 0, 0) then 1 else 0, - int y, - int m, - int d))"



subsection \<open>The year filter and the order of the results in the words of the specification\<close>





section \<open>The scripts that edit one record\<close>

text \<open>
  \<^verbatim>\<open>delete_album.py\<close>, \<^verbatim>\<open>toggle_tag.py\<close> and \<^verbatim>\<open>edit_date.py\<close> take the url of a record from
  a JSON argument, read the store into a list, work on the records whose \<^verbatim>\<open>url\<close> is equal
  to it and write the list back. A run ends with one of the failures below or with the
  store that it wrote. \<open>Uncaught e\<close> is an exception that no handler catches: the script
  stops before it writes.
\<close>

datatype failure =
    MissingUrl
  | MissingUrlOrTag
  | AlbumNotFound
  | AlbumNotDeleted
  | InvalidDateFormat
  | InvalidItemCount
  | ReadFailed
  | Uncaught error

subsection \<open>\<^verbatim>\<open>delete_album.py\<close>\<close>



subsection \<open>\<^verbatim>\<open>toggle_tag.py\<close>\<close>

datatype toggle_outcome = TagAdded | TagAlreadyExists | TagRemoved | TagNotFound | NoAction




text \<open>
  \<^verbatim>\<open>main\<close>: the outcome that the script reports and, in \<open>written\<close>, the content of the store
  file when the run wrote it.
\<close>

record toggle_result =
  outcome :: toggle_outcome
  written :: "store option"



subsection \<open>\<^verbatim>\<open>edit_date.py\<close>\<close>

definition validate_date :: "string \<Rightarrow> bool" where
  "validate_date date_string = (strptime_Y_m_d date_string \<noteq> None)"

text \<open>\<^verbatim>\<open>a > b\<close> on strings: the lexicographic order of the code points.\<close>

fun str_greater :: "string \<Rightarrow> string \<Rightarrow> bool" where
  "str_greater [] b = False"
| "str_greater (c # cs) [] = True"
| "str_greater (c # cs) (d # ds) =
     ((of_char d :: nat) < of_char c \<or> (c = d \<and> str_greater cs ds))"

definition parse_date_input :: "string \<Rightarrow> (string \<times> string option \<times> string) option" where
  "parse_date_input date_input0 =
     (let date_input = strip date_input0 in
      if contains ''--'' date_input then
        (case split_on ''--'' date_input of
           [p0, p1] \<Rightarrow>
             let start_date = strip p0; end_date = strip p1 in
             if \<not> validate_date start_date \<or> \<not> validate_date end_date then None
             else if str_greater start_date end_date then None
             else Some (start_date, Some end_date, start_date @ ''--'' @ end_date)
         | _ \<Rightarrow> None)
      else if \<not> validate_date date_input then None
      else Some (date_input, None, date_input))"

definition set_dates :: "string \<Rightarrow> string option \<Rightarrow> string \<Rightarrow> album \<Rightarrow> album" where
  "set_dates start_date end_date date_range album =
     (let album1 = AList.update ''dateRange'' (JStr date_range) album;
          album2 = AList.update ''startDate'' (JStr start_date) album1
      in case end_date of
           Some e \<Rightarrow> if e \<noteq> [] then AList.update ''endDate'' (JStr e) album2
                     else AList.delete ''endDate'' album2
         | None \<Rightarrow> AList.delete ''endDate'' album2)"

fun edit_date_loop ::
  "json \<Rightarrow> string \<Rightarrow> string option \<Rightarrow> string \<Rightarrow> json list \<Rightarrow> error + json list option" where
  "edit_date_loop album_url start_date end_date date_range [] = Inr None"
| "edit_date_loop album_url start_date end_date date_range (album # albums) =
     (case album of
        JObj a \<Rightarrow>
          if py_eq (py_get a ''url'') album_url
          then Inr (Some (JObj (set_dates start_date end_date date_range a) # albums))
          else
            (case edit_date_loop album_url start_date end_date date_range albums of
               Inl e \<Rightarrow> Inl e
             | Inr None \<Rightarrow> Inr None
             | Inr (Some albums') \<Rightarrow> Inr (Some (album # albums')))
      | _ \<Rightarrow> Inl AttributeError)"

definition edit_date_main :: "json \<Rightarrow> string \<Rightarrow> store \<Rightarrow> failure + store" where
  "edit_date_main album_data date_input f =
     (case parse_date_input date_input of
        None \<Rightarrow> Inl InvalidDateFormat
      | Some (start_date, end_date, date_range) \<Rightarrow>
          (case album_data of
             JObj d \<Rightarrow>
               let album_url = py_get_default d ''url'' (JStr []) in
               if \<not> truthy album_url then Inl MissingUrl
               else
                 (case edit_date_loop album_url start_date end_date date_range
                         (read_database f) of
                    Inl e \<Rightarrow> Inl (Uncaught e)
                  | Inr None \<Rightarrow> Inl AlbumNotFound
                  | Inr (Some albums) \<Rightarrow> Inr (write_database albums))
           | _ \<Rightarrow> Inl (Uncaught AttributeError)))"

subsection \<open>\<^verbatim>\<open>edit_item_count.py\<close>\<close>






definition other_record :: "json \<Rightarrow> json \<Rightarrow> bool" where
  "other_record album_url album =
     (case album of JObj a \<Rightarrow> \<not> py_eq (py_get a ''url'') album_url | _ \<Rightarrow> False)"

subsection \<open>Notions for the second run of a batch\<close>

text \<open>
  What the merge rule reads of the dictionary: for every key, the \<^verbatim>\<open>itemCount\<close> of the
  album under it. A candidate is settled in a dictionary when it has no url, or its url
  is a key and the merge rule does not let it overwrite the count that is there.
\<close>

definition count_view :: "albums_dict \<Rightarrow> key \<Rightarrow> json option" where
  "count_view d k = map_option (\<lambda>a. py_get a ''itemCount'') (map_of d k)"

definition settled :: "albums_dict \<Rightarrow> json \<Rightarrow> bool" where
  "settled d c =
     (case candidate_key c of
        None \<Rightarrow> True
      | Some k \<Rightarrow>
          (case count_view d k of
             None \<Rightarrow> False
           | Some e \<Rightarrow> \<not> overwrite_permitted e (candidate_count c)))"

text \<open>A candidate on which the loop of the batch raises nothing.\<close>

definition wf_input :: "json \<Rightarrow> bool" where
  "wf_input c =
     (case c of
        JObj input \<Rightarrow>
          (case py_get_default input ''url'' (JStr []) of JStr raw_url \<Rightarrow> True | _ \<Rightarrow> False)
      | _ \<Rightarrow> False)"

text \<open>
  A dictionary as \<^verbatim>\<open>read_existing_albums\<close> builds it: every album stands once, under the
  key of its own url, and has an identifier.
\<close>

definition well_keyed :: "albums_dict \<Rightarrow> bool" where
  "well_keyed d =
     (distinct (map fst d) \<and>
      list_all (\<lambda>ka. truthy (py_get_default (snd ka) ''url'' (JStr [])) \<and>
                     hash_key (py_get_default (snd ka) ''url'' (JStr [])) = Some (fst ka) \<and>
                     map_of (snd ka) ''id'' \<noteq> None) d)"

chapter \<open>Properties\<close>

section \<open>Ingest leaves existing records alone\<close>

lemma ensure_id_frame:
  "ensure_id uuid a n = (a1, i, n') \<Longrightarrow> k \<noteq> ''id'' \<Longrightarrow> map_of a1 k = map_of a k"
  by (auto simp: ensure_id_def Let_def update_conv' split: if_splits)

lemma update_item_count_frame:
  "update_item_count a new = (a2, ch) \<Longrightarrow> k \<noteq> ''itemCount'' \<Longrightarrow> map_of a2 k = map_of a k"
  by (auto simp: update_item_count_def Let_def update_conv' split: if_splits prod.splits)

lemma py_eq_zero: "py_eq e (JInt 0) \<Longrightarrow> py_int e = Inr 0"
  by (cases e) (auto split: if_splits)











section \<open>Loading a store with a bad line\<close>

lemma read_loop_unparsable:
  "Unparsable \<in> set f \<Longrightarrow> \<exists>e. read_loop uuid f d n = Inl e"
proof (induction f arbitrary: d n)
  case Nil
  then show ?case by simp
next
  case (Cons l f)
  show ?case
  proof (cases l)
    case Blank
    with Cons show ?thesis by simp
  next
    case Unparsable
    then show ?thesis by simp
  next
    case (Parsed v)
    with Cons.prems have "Unparsable \<in> set f" by simp
    from Cons.IH[OF this] Parsed show ?thesis
      by (auto simp: Let_def split: json.splits option.splits)
  qed
qed

lemma read_lines_unparsable:
  "Unparsable \<in> set f \<Longrightarrow> snd (read_lines f albums)"
  by (induction f albums rule: read_lines.induct) auto

text \<open>
  Claim C10. If a line of the store that is not blank fails to parse, the loader of the
  ingest and the loader of the search return an empty collection: the lines parsed
  before the failure are dropped with it.
\<close>

theorem parse_failure_drops_collection:
  assumes "Unparsable \<in> set f"
  shows "fst (read_existing_albums uuid f n) = [] \<and> read_database f = []"
proof
  from read_loop_unparsable[OF assms] obtain e where "read_loop uuid f [] n = Inl e" by blast
  then show "fst (read_existing_albums uuid f n) = []" by (simp add: read_existing_albums_def)
  from read_lines_unparsable[OF assms, of "[]"] show "read_database f = []"
    by (cases "read_lines f []") (simp add: read_database_def)
qed

text \<open>The theorem at a store whose second line of three is not JSON.\<close>

theorem parse_failure_drops_collection_witness:
  "Unparsable \<in> set [Parsed (JObj [(''url'', JStr ''u'')]), Unparsable,
                       Parsed (JObj [(''url'', JStr ''v'')])] \<and>
   fst (read_existing_albums (\<lambda>n. ''fresh'')
          [Parsed (JObj [(''url'', JStr ''u'')]), Unparsable,
           Parsed (JObj [(''url'', JStr ''v'')])] 0) = [] \<and>
   read_database [Parsed (JObj [(''url'', JStr ''u'')]), Unparsable,
                  Parsed (JObj [(''url'', JStr ''v'')])] = []"
proof -
  have h: "Unparsable \<in> set [Parsed (JObj [(''url'', JStr ''u'')]), Unparsable,
                             Parsed (JObj [(''url'', JStr ''v'')])]"
    by simp
  show ?thesis
    by (rule conjI[OF h parse_failure_drops_collection[OF h]])
qed

section \<open>Date normalisation\<close>







section \<open>Search\<close>





lemma sort_key_of_eq: "sort_key_of a = sort_key_of b \<longleftrightarrow> m_sort_date a = m_sort_date b"
  by (cases "m_sort_date a"; cases "m_sort_date b") (auto simp: sort_key_of_def)




section \<open>Deleting a record\<close>








section \<open>Toggling a tag\<close>









section \<open>Editing the dates of a record\<close>

lemma edit_date_loop_result:
  "edit_date_loop u s e r xs = Inr (Some ys) \<Longrightarrow>
   \<exists>pre a post. xs = pre @ [JObj a] @ post \<and> list_all (other_record u) pre \<and>
      py_eq (py_get a ''url'') u \<and> ys = pre @ [JObj (set_dates s e r a)] @ post"
proof (induction xs arbitrary: ys)
  case Nil
  then show ?case by simp
next
  case (Cons x xs)
  from Cons.prems obtain b where x: "x = JObj b" by (auto split: json.splits)
  show ?case
  proof (cases "py_eq (py_get b ''url'') u")
    case True
    with Cons.prems x have "ys = JObj (set_dates s e r b) # xs" by simp
    with True x show ?thesis
      by (rule_tac x = "[]" in exI, rule_tac x = b in exI, rule_tac x = xs in exI) simp
  next
    case False
    with Cons.prems x obtain ys' where r: "edit_date_loop u s e r xs = Inr (Some ys')"
      and ys: "ys = x # ys'"
      by (auto split: sum.splits option.splits)
    from Cons.IH[OF r] obtain pre a post where
      "xs = pre @ [JObj a] @ post" "list_all (other_record u) pre"
      "py_eq (py_get a ''url'') u" "ys' = pre @ [JObj (set_dates s e r a)] @ post"
      by blast
    moreover have "other_record u x" using False x by (simp add: other_record_def)
    ultimately show ?thesis using ys
      by (rule_tac x = "x # pre" in exI, rule_tac x = a in exI, rule_tac x = post in exI) simp
  qed
qed

lemma validate_date_nonempty: "validate_date e \<Longrightarrow> e \<noteq> []"
  by (auto simp: validate_date_def strptime_Y_m_d_def split_on_def)

lemma parse_date_input_accepted:
  "parse_date_input x = Some (s, eo, r) \<Longrightarrow>
   validate_date s \<and>
   (case eo of
      None \<Rightarrow> r = s
    | Some e \<Rightarrow> validate_date e \<and> \<not> str_greater s e \<and> r = s @ ''--'' @ e)"
  by (auto simp: parse_date_input_def Let_def split: if_splits list.splits)

lemma set_dates_fields:
  "map_of (set_dates s eo r a) ''startDate'' = Some (JStr s) \<and>
   map_of (set_dates s eo r a) ''dateRange'' = Some (JStr r) \<and>
   map_of (set_dates s eo r a) ''endDate'' =
     (case eo of None \<Rightarrow> None | Some e \<Rightarrow> if e \<noteq> [] then Some (JStr e) else None)"
  by (auto simp: set_dates_def Let_def update_conv' delete_conv' split: option.splits)

text \<open>
  After a successful run of \<^verbatim>\<open>edit_date.py\<close> the record has the start date, the end date
  (none for a single date) and the range of the accepted input, the range is made of the
  two dates, and the start date is not greater than the end date as a string.
\<close>

lemma edit_date_fields_consistent:
  assumes run: "edit_date_main album_data date_input f = Inr f'"
  shows "\<exists>s eo r pre a post a'.
           parse_date_input date_input = Some (s, eo, r) \<and>
           read_database f = pre @ [JObj a] @ post \<and>
           f' = write_database (pre @ [JObj a'] @ post) \<and>
           map_of a' ''startDate'' = Some (JStr s) \<and>
           map_of a' ''dateRange'' = Some (JStr r) \<and>
           (case eo of
              None \<Rightarrow> map_of a' ''endDate'' = None \<and> r = s
            | Some e \<Rightarrow> map_of a' ''endDate'' = Some (JStr e) \<and> \<not> str_greater s e \<and>
                        r = s @ ''--'' @ e)"
proof -
  from run obtain s eo r where p: "parse_date_input date_input = Some (s, eo, r)"
    by (auto simp: edit_date_main_def split: option.splits)
  from run p obtain d where d: "album_data = JObj d"
    by (auto simp: edit_date_main_def split: json.splits)
  from run p d obtain ys where
    loop: "edit_date_loop (py_get_default d ''url'' (JStr [])) s eo r (read_database f) = Inr (Some ys)"
    and f': "f' = write_database ys"
    by (auto simp: edit_date_main_def Let_def split: if_splits sum.splits option.splits)
  from edit_date_loop_result[OF loop] obtain pre a post where
    st: "read_database f = pre @ [JObj a] @ post"
    and ys: "ys = pre @ [JObj (set_dates s eo r a)] @ post"
    by blast
  have e: "case eo of
              None \<Rightarrow> map_of (set_dates s eo r a) ''endDate'' = None \<and> r = s
            | Some e \<Rightarrow> map_of (set_dates s eo r a) ''endDate'' = Some (JStr e) \<and>
                        \<not> str_greater s e \<and> r = s @ ''--'' @ e"
    using parse_date_input_accepted[OF p] set_dates_fields[of s eo r a] validate_date_nonempty
    by (auto split: option.splits)
  show ?thesis
    using p st f' ys set_dates_fields[of s eo r a] e
    by (rule_tac x = s in exI, rule_tac x = eo in exI, rule_tac x = r in exI,
        rule_tac x = pre in exI, rule_tac x = a in exI, rule_tac x = post in exI,
        rule_tac x = "set_dates s eo r a" in exI) simp
qed

text \<open>
  Claim C8 says that the dates of the record are canonical after a successful edit, so
  that the order of the strings is the order of the dates. \<^verbatim>\<open>validate_date\<close> accepts a
  month or a day of one digit, as \<^verbatim>\<open>strptime\<close> does: the input below, from October to
  September of the same year, is accepted and stored as it is.
\<close>

theorem edit_date_unpadded_failing_input:
  "edit_date_main (JObj [(''url'', JStr ''u'')]) ''2024-10-01--2024-9-01''
     [Parsed (JObj [(''url'', JStr ''u''), (''title'', JStr ''Rome'')])]
   = Inr [Parsed (JObj [(''url'', JStr ''u''), (''title'', JStr ''Rome''),
                        (''dateRange'', JStr ''2024-10-01--2024-9-01''),
                        (''startDate'', JStr ''2024-10-01''),
                        (''endDate'', JStr ''2024-9-01'')])] \<and>
   \<not> is_canonical ''2024-9-01'' \<and>
   strptime_Y_m_d ''2024-10-01'' = Some (2024, 10, 1) \<and>
   strptime_Y_m_d ''2024-9-01'' = Some (2024, 9, 1)"
  by code_simp

section \<open>A second run of the same batch\<close>

lemma update_item_count_char:
  "update_item_count a new =
     (if overwrite_permitted (py_get a ''itemCount'') new
      then (AList.update ''itemCount'' (fst (coerce_counts new (py_get a ''itemCount''))) a, True)
      else (a, False))"
  by (auto simp: update_item_count_def overwrite_permitted_def coerce_counts_def Let_def
      dest: py_eq_zero split: sum.splits)

lemma py_int_not_zero_like: "py_int x = Inl e \<Longrightarrow> \<not> py_eq x (JInt 0)"
  by (cases x) auto

lemma permitted_self:
  "overwrite_permitted e c \<Longrightarrow> \<not> overwrite_permitted (fst (coerce_counts c e)) c"
  by (auto simp: overwrite_permitted_def coerce_counts_def
      dest: py_eq_zero py_int_not_zero_like split: sum.splits)

lemma permitted_preserved:
  "\<not> overwrite_permitted e c \<Longrightarrow> overwrite_permitted e c2 \<Longrightarrow>
   \<not> overwrite_permitted (fst (coerce_counts c2 e)) c"
  by (auto simp: overwrite_permitted_def coerce_counts_def
      dest: py_eq_zero py_int_not_zero_like split: sum.splits)

lemma not_permitted_same: "\<not> overwrite_permitted new new"
  by (auto simp: overwrite_permitted_def dest: py_eq_zero py_int_not_zero_like split: sum.splits)

lemma stored_not_null: "c \<noteq> JNull \<Longrightarrow> fst (coerce_counts c e) \<noteq> JNull"
  by (auto simp: coerce_counts_def split: sum.splits)


lemma count_view_update:
  "count_view (AList.update k a d) = (count_view d)(k \<mapsto> py_get a ''itemCount'')"
  by (rule ext) (simp add: count_view_def update_conv')

lemma ensure_id_has_id: "ensure_id uuid b n = (b1, i, n1) \<Longrightarrow> map_of b1 ''id'' \<noteq> None"
  by (auto simp: ensure_id_def Let_def update_conv' py_get_def split: if_splits option.splits)

lemma candidate_facts:
  "c = JObj input \<Longrightarrow> py_get_default input ''url'' (JStr []) = JStr raw \<Longrightarrow>
   wf_input c \<and> candidate_count c = py_get input ''itemCount'' \<and>
   candidate_key c = (if strip raw = [] then None else Some (KStr (strip raw)))"
  by (simp add: wf_input_def candidate_count_def candidate_key_def)

text \<open>One turn of the loop of the batch.\<close>

lemma bulk_loop_step:
  assumes run: "bulk_loop uuid (c # rest) d un up ad n = Inr R"
  obtains
    (skip) "wf_input c" "candidate_key c = None" "bulk_loop uuid rest d un up ad n = Inr R"
  | (existing) k b b2 un' up' n' where
      "wf_input c" "candidate_key c = Some k" "map_of d k = Some b"
      "bulk_loop uuid rest (AList.update k b2 d) un' up' ad n' = Inr R"
      "py_get b2 ''itemCount'' =
         (if overwrite_permitted (py_get b ''itemCount'') (candidate_count c)
          then fst (coerce_counts (candidate_count c) (py_get b ''itemCount''))
          else py_get b ''itemCount'')"
      "length up' =
         (if overwrite_permitted (py_get b ''itemCount'') (candidate_count c)
          then Suc (length up) else length up)"
      "map_of b2 ''url'' = map_of b ''url''" "map_of b2 ''id'' \<noteq> None"
  | (created) k a ad' where
      "wf_input c" "candidate_key c = Some k" "map_of d k = None"
      "bulk_loop uuid rest (AList.update k a d) un up ad' (Suc n) = Inr R"
      "py_get a ''itemCount'' = candidate_count c" "length ad' = Suc (length ad)"
      "\<exists>u. k = KStr u \<and> u \<noteq> [] \<and> map_of a ''url'' = Some (JStr u)" "map_of a ''id'' \<noteq> None"
proof -
  from run obtain input where c: "c = JObj input" by (auto split: json.splits)
  from run c obtain raw where raw: "py_get_default input ''url'' (JStr []) = JStr raw"
    by (auto split: json.splits)
  note cf = candidate_facts[OF c raw]
  show thesis
  proof (cases "strip raw = []")
    case True
    with run c raw have "bulk_loop uuid rest d un up ad n = Inr R" by simp
    with cf True skip show thesis by simp
  next
    case ne: False
    let ?k = "KStr (strip raw)"
    let ?new = "py_get input ''itemCount''"
    show thesis
    proof (cases "map_of d ?k")
      case None
      let ?a = "[(''id'', JStr (uuid n)), (''url'', JStr (strip raw)),
                 (''title'', py_get_default input ''title'' (JStr ''Untitled Album'')),
                 (''tags'', JArr [])]
                @ (if ?new \<noteq> JNull then [(''itemCount'', ?new)] else [])"
      from run c raw ne None
      have r: "bulk_loop uuid rest (AList.update ?k ?a d) un up (ad @ [JStr (uuid n)]) (Suc n) = Inr R"
        by (simp add: Let_def)
      have g: "py_get ?a ''itemCount'' = candidate_count c"
        using cf by (simp add: py_get_def)
      have u: "\<exists>u. ?k = KStr u \<and> u \<noteq> [] \<and> map_of ?a ''url'' = Some (JStr u)"
        using ne by simp
      have i: "map_of ?a ''id'' \<noteq> None" by simp
      show thesis
        by (rule created[of ?k ?a "ad @ [JStr (uuid n)]"]) (use cf ne None r g u i in simp_all)
    next
      case (Some b)
      obtain b1 i n1 where 1: "ensure_id uuid b n = (b1, i, n1)"
        by (cases "ensure_id uuid b n") auto
      have b1c: "py_get b1 ''itemCount'' = py_get b ''itemCount''"
        using ensure_id_frame[OF 1, of "''itemCount''"] by (simp add: py_get_def)
      let ?p = "overwrite_permitted (py_get b ''itemCount'') ?new"
      obtain b2 ch where 2: "update_item_count b1 ?new = (b2, ch)"
        by (cases "update_item_count b1 ?new") auto
      have ch: "ch = ?p"
        using 2 b1c by (simp add: update_item_count_char split: if_splits)
      from run c raw ne Some 1 2 ch
      have r: "bulk_loop uuid rest (AList.update ?k b2 d)
                 (if ?p then un else un @ [i]) (if ?p then up @ [i] else up) ad n1 = Inr R"
        by (simp add: Let_def split: if_splits)
      have g: "py_get b2 ''itemCount'' =
         (if ?p then fst (coerce_counts ?new (py_get b ''itemCount'')) else py_get b ''itemCount'')"
        using 2 b1c by (auto simp: update_item_count_char py_get_def update_conv' split: if_splits)
      have l: "length (if ?p then up @ [i] else up) = (if ?p then Suc (length up) else length up)"
        by simp
      have u: "map_of b2 ''url'' = map_of b ''url''"
        using update_item_count_frame[OF 2, of "''url''"] ensure_id_frame[OF 1, of "''url''"]
        by simp
      have h: "map_of b2 ''id'' \<noteq> None"
        using update_item_count_frame[OF 2, of "''id''"] ensure_id_has_id[OF 1] by simp
      show thesis
        by (rule existing[of ?k b b2 "if ?p then un else un @ [i]" "if ?p then up @ [i] else up" n1])
           (use cf ne Some r g l u h in simp_all)
    qed
  qed
qed

lemma settled_cong: "count_view d = count_view d' \<Longrightarrow> settled d c = settled d' c"
  by (simp add: settled_def split: option.splits)

lemma settled_step_existing:
  assumes "settled d c0" "map_of d k = Some b"
    and "py_get b2 ''itemCount'' =
         (if overwrite_permitted (py_get b ''itemCount'') new
          then fst (coerce_counts new (py_get b ''itemCount''))
          else py_get b ''itemCount'')"
  shows "settled (AList.update k b2 d) c0"
  using assms permitted_preserved[of "py_get b ''itemCount''" "candidate_count c0" new]
  by (auto simp: settled_def count_view_update split: option.splits)
     (auto simp: count_view_def)

lemma settled_step_created:
  assumes "settled d c0" "map_of d k = None"
  shows "settled (AList.update k a d) c0"
  using assms
  by (auto simp: settled_def count_view_update split: option.splits)
     (auto simp: count_view_def)

lemma bulk_loop_preserves_settled:
  "bulk_loop uuid inputs d un up ad n = Inr R \<Longrightarrow> settled d c0 \<Longrightarrow> settled (fst R) c0"
proof (induction inputs arbitrary: d un up ad n)
  case Nil
  then show ?case by auto
next
  case (Cons c rest)
  from Cons.prems(1) show ?case
  proof (cases rule: bulk_loop_step)
    case skip
    with Cons show ?thesis by blast
  next
    case (existing k b b2 un' up' n')
    from settled_step_existing[OF Cons.prems(2) existing(3) existing(5)] Cons.IH[OF existing(4)]
    show ?thesis by blast
  next
    case (created k a ad')
    from settled_step_created[OF Cons.prems(2) created(3)] Cons.IH[OF created(4)]
    show ?thesis by blast
  qed
qed

lemma bulk_loop_settles:
  "bulk_loop uuid inputs d un up ad n = Inr R \<Longrightarrow> list_all (settled (fst R)) inputs"
proof (induction inputs arbitrary: d un up ad n)
  case Nil
  then show ?case by simp
next
  case (Cons c rest)
  from Cons.prems(1) show ?case
  proof (cases rule: bulk_loop_step)
    case skip
    have "settled (fst R) c" using skip(2) by (simp add: settled_def)
    with Cons.IH[OF skip(3)] show ?thesis by simp
  next
    case (existing k b b2 un' up' n')
    have "settled (AList.update k b2 d) c"
      using existing(2,5) permitted_self[of "py_get b ''itemCount''" "candidate_count c"]
      by (auto simp: settled_def count_view_update)
    from bulk_loop_preserves_settled[OF existing(4) this] Cons.IH[OF existing(4)]
    show ?thesis by simp
  next
    case (created k a ad')
    have "settled (AList.update k a d) c"
      using created(2,5) not_permitted_same by (auto simp: settled_def count_view_update)
    from bulk_loop_preserves_settled[OF created(4) this] Cons.IH[OF created(4)]
    show ?thesis by simp
  qed
qed

lemma bulk_loop_wf:
  "bulk_loop uuid inputs d un up ad n = Inr R \<Longrightarrow> list_all wf_input inputs"
proof (induction inputs arbitrary: d un up ad n)
  case Nil
  then show ?case by simp
next
  case (Cons c rest)
  from Cons.prems(1) show ?case
    by (cases rule: bulk_loop_step) (use Cons.IH in auto)
qed

text \<open>A run that reports no update and no new album has left every count as it was.\<close>

lemma bulk_loop_quiet:
  "bulk_loop uuid inputs d un up ad n = Inr (d1, un1, up1, ad1, n1) \<Longrightarrow>
   length up + length ad \<le> length up1 + length ad1 \<and>
   (length up1 + length ad1 = length up + length ad \<longrightarrow> count_view d1 = count_view d)"
proof (induction inputs arbitrary: d un up ad n)
  case Nil
  then show ?case by simp
next
  case (Cons c rest)
  from Cons.prems(1) show ?case
  proof (cases rule: bulk_loop_step)
    case skip
    with Cons.IH show ?thesis by blast
  next
    case (existing k b b2 un' up' n')
    note ih = Cons.IH[OF existing(4)]
    show ?thesis
    proof (cases "overwrite_permitted (py_get b ''itemCount'') (candidate_count c)")
      case True
      with existing(6) ih show ?thesis by simp
    next
      case False
      with existing(5) have "py_get b2 ''itemCount'' = py_get b ''itemCount''" by simp
      then have "count_view (AList.update k b2 d) = count_view d"
        using existing(3) by (auto simp: count_view_update) (auto simp: count_view_def)
      with False existing(6) ih show ?thesis by simp
    qed
  next
    case (created k a ad')
    from Cons.IH[OF created(4)] created(6) show ?thesis by simp
  qed
qed

text \<open>
  The run of a batch on a dictionary in which all its candidates are settled: nothing is
  updated and nothing added.
\<close>

lemma bulk_loop_second_run:
  "list_all wf_input inputs \<Longrightarrow> list_all (settled d) inputs \<Longrightarrow>
   \<exists>d' un' n'. bulk_loop uuid inputs d un up ad n = Inr (d', un', up, ad, n')"
proof (induction inputs arbitrary: d un n)
  case Nil
  then show ?case by simp
next
  case (Cons c rest)
  from Cons.prems(1) obtain input raw where c: "c = JObj input"
    and raw: "py_get_default input ''url'' (JStr []) = JStr raw"
    by (auto simp: wf_input_def split: json.splits)
  note cf = candidate_facts[OF c raw]
  from Cons.prems have wf: "list_all wf_input rest" and st: "list_all (settled d) rest"
    and sc: "settled d c" by simp_all
  show ?case
  proof (cases "strip raw = []")
    case True
    with Cons.IH[OF wf st, of un n] c raw show ?thesis by simp
  next
    case ne: False
    let ?k = "KStr (strip raw)"
    from sc cf ne obtain b where b: "map_of d ?k = Some b"
      and np: "\<not> overwrite_permitted (py_get b ''itemCount'') (py_get input ''itemCount'')"
      by (auto simp: settled_def count_view_def split: option.splits)
    obtain b1 i n1 where 1: "ensure_id uuid b n = (b1, i, n1)"
      by (cases "ensure_id uuid b n") auto
    have b1c: "py_get b1 ''itemCount'' = py_get b ''itemCount''"
      using ensure_id_frame[OF 1, of "''itemCount''"] by (simp add: py_get_def)
    have 2: "update_item_count b1 (py_get input ''itemCount'') = (b1, False)"
      using np b1c by (simp add: update_item_count_char)
    have step: "bulk_loop uuid (c # rest) d un up ad n =
                bulk_loop uuid rest (AList.update ?k b1 d) (un @ [i]) up ad n1"
      using c raw ne b 1 2 by (simp add: Let_def)
    have cv: "count_view (AList.update ?k b1 d) = count_view d"
      using b b1c by (auto simp: count_view_update) (auto simp: count_view_def)
    then have "list_all (settled (AList.update ?k b1 d)) rest"
      using st settled_cong[OF cv] by (simp add: list_all_iff)
    from Cons.IH[OF wf this, of "un @ [i]" n1] step show ?thesis by simp
  qed
qed

lemma set_update_subset: "set (AList.update k v al) \<subseteq> insert (k, v) (set al)"
  by (induction al) auto

lemma update_append: "k \<notin> fst ` set al \<Longrightarrow> AList.update k v al = al @ [(k, v)]"
  by (induction al) auto

lemma well_keyed_update:
  assumes "well_keyed d"
    and "truthy (py_get_default a ''url'' (JStr []))"
    and "hash_key (py_get_default a ''url'' (JStr [])) = Some k"
    and "map_of a ''id'' \<noteq> None"
  shows "well_keyed (AList.update k a d)"
proof -
  have "distinct (map fst (AList.update k a d))"
    using assms(1) by (simp add: well_keyed_def distinct_update)
  moreover have "\<forall>ka \<in> set (AList.update k a d).
      truthy (py_get_default (snd ka) ''url'' (JStr [])) \<and>
      hash_key (py_get_default (snd ka) ''url'' (JStr [])) = Some (fst ka) \<and>
      map_of (snd ka) ''id'' \<noteq> None"
    using assms set_update_subset[of k a d] by (auto simp: well_keyed_def list_all_iff)
  ultimately show ?thesis by (simp add: well_keyed_def list_all_iff)
qed

lemma well_keyed_entry:
  "well_keyed d \<Longrightarrow> map_of d k = Some b \<Longrightarrow>
   truthy (py_get_default b ''url'' (JStr [])) \<and>
   hash_key (py_get_default b ''url'' (JStr [])) = Some k"
  by (auto simp: well_keyed_def list_all_iff dest!: map_of_SomeD)

lemma bulk_loop_well_keyed:
  "bulk_loop uuid inputs d un up ad n = Inr R \<Longrightarrow> well_keyed d \<Longrightarrow> well_keyed (fst R)"
proof (induction inputs arbitrary: d un up ad n)
  case Nil
  then show ?case by auto
next
  case (Cons c rest)
  from Cons.prems(1) show ?case
  proof (cases rule: bulk_loop_step)
    case skip
    with Cons show ?thesis by blast
  next
    case (existing k b b2 un' up' n')
    have "py_get_default b2 ''url'' (JStr []) = py_get_default b ''url'' (JStr [])"
      using existing(7) by (simp add: py_get_default_def)
    with well_keyed_entry[OF Cons.prems(2) existing(3)] existing(8)
    have "well_keyed (AList.update k b2 d)"
      using well_keyed_update[OF Cons.prems(2), of b2 k] by simp
    from Cons.IH[OF existing(4) this] show ?thesis .
  next
    case (created k a ad')
    from created(7) obtain u where "k = KStr u" "u \<noteq> []" "map_of a ''url'' = Some (JStr u)"
      by blast
    then have "well_keyed (AList.update k a d)"
      using well_keyed_update[OF Cons.prems(2), of a k] created(8)
      by (simp add: py_get_default_def)
    from Cons.IH[OF created(4) this] show ?thesis .
  qed
qed

lemma read_loop_well_keyed:
  "read_loop uuid f acc n = Inr R \<Longrightarrow> well_keyed acc \<Longrightarrow> well_keyed (fst R)"
proof (induction f arbitrary: acc n)
  case Nil
  then show ?case by auto
next
  case (Cons l f)
  show ?case
  proof (cases l)
    case Blank
    with Cons show ?thesis by simp
  next
    case Unparsable
    with Cons.prems show ?thesis by simp
  next
    case (Parsed v)
    from Cons.prems(1) Parsed obtain album where v: "v = JObj album"
      by (auto split: json.splits)
    let ?url = "py_get_default album ''url'' (JStr [])"
    show ?thesis
    proof (cases "truthy ?url")
      case False
      with Cons.prems Parsed v have "read_loop uuid f acc n = Inr R" by simp
      from Cons.IH[OF this Cons.prems(2)] show ?thesis .
    next
      case True
      let ?a = "if map_of album ''id'' = None
                then AList.update ''id'' (JStr (uuid n)) album else album"
      let ?n = "if map_of album ''id'' = None then Suc n else n"
      from Cons.prems(1) Parsed v True obtain k where k: "hash_key ?url = Some k"
        and r: "read_loop uuid f (AList.update k ?a acc) ?n = Inr R"
        by (auto simp: Let_def split: option.splits)
      have u: "py_get_default ?a ''url'' (JStr []) = ?url"
        by (simp add: py_get_default_def update_conv')
      have i: "map_of ?a ''id'' \<noteq> None" by (simp add: update_conv')
      have "well_keyed (AList.update k ?a acc)"
        using well_keyed_update[OF Cons.prems(2), of ?a k] u i True k by simp
      from Cons.IH[OF r this] show ?thesis .
    qed
  qed
qed

lemma read_loop_written:
  "distinct (map fst (acc @ d)) \<Longrightarrow>
   list_all (\<lambda>ka. truthy (py_get_default (snd ka) ''url'' (JStr [])) \<and>
                  hash_key (py_get_default (snd ka) ''url'' (JStr [])) = Some (fst ka) \<and>
                  map_of (snd ka) ''id'' \<noteq> None) d \<Longrightarrow>
   read_loop uuid (map (\<lambda>kv. Parsed (JObj (snd kv))) d) acc n = Inr (acc @ d, n)"
proof (induction d arbitrary: acc)
  case Nil
  then show ?case by simp
next
  case (Cons ka d)
  obtain k a where ka: "ka = (k, a)" by (cases ka) auto
  from Cons.prems ka have fresh: "k \<notin> fst ` set acc" by auto
  from Cons.prems ka have d: "distinct (map fst ((acc @ [(k, a)]) @ d))" by auto
  from Cons.prems ka have e: "truthy (py_get_default a ''url'' (JStr []))"
    "hash_key (py_get_default a ''url'' (JStr [])) = Some k" "map_of a ''id'' \<noteq> None"
    and l: "list_all (\<lambda>ka. truthy (py_get_default (snd ka) ''url'' (JStr [])) \<and>
                  hash_key (py_get_default (snd ka) ''url'' (JStr [])) = Some (fst ka) \<and>
                  map_of (snd ka) ''id'' \<noteq> None) d"
    by simp_all
  from Cons.IH[OF d l] e fresh ka show ?case
    by (auto simp: Let_def update_append)
qed

lemma read_written:
  "well_keyed d \<Longrightarrow> read_existing_albums uuid (write_albums_database d) n = (d, n)"
  using read_loop_written[of "[]" d uuid n]
  by (simp add: well_keyed_def read_existing_albums_def write_albums_database_def
      write_database_def comp_def)

lemma read_existing_well_keyed: "well_keyed (fst (read_existing_albums uuid f n))"
proof (cases "read_loop uuid f [] n")
  case (Inl e)
  then show ?thesis by (simp add: read_existing_albums_def well_keyed_def)
next
  case (Inr R)
  have "well_keyed []" by (simp add: well_keyed_def)
  from read_loop_well_keyed[OF Inr this] Inr show ?thesis
    by (simp add: read_existing_albums_def)
qed

text \<open>Two readings of one file differ at most in the identifiers they generate.\<close>

lemma read_loop_same_counts:
  "count_view acc1 = count_view acc2 \<Longrightarrow>
   (\<forall>e. read_loop uuid1 f acc1 n1 = Inl e \<longrightarrow> read_loop uuid2 f acc2 n2 = Inl e) \<and>
   (\<forall>R1. read_loop uuid1 f acc1 n1 = Inr R1 \<longrightarrow>
      (\<exists>R2. read_loop uuid2 f acc2 n2 = Inr R2 \<and> count_view (fst R1) = count_view (fst R2)))"
proof (induction f arbitrary: acc1 acc2 n1 n2)
  case Nil
  then show ?case by simp
next
  case (Cons l f)
  show ?case
  proof (cases l)
    case Blank
    with Cons show ?thesis by simp
  next
    case Unparsable
    then show ?thesis by simp
  next
    case (Parsed v)
    show ?thesis
    proof (cases v)
      case (JObj album)
      let ?url = "py_get_default album ''url'' (JStr [])"
      show ?thesis
      proof (cases "truthy ?url")
        case False
        with Parsed JObj Cons.IH[OF Cons.prems] show ?thesis by simp
      next
        case True
        show ?thesis
        proof (cases "hash_key ?url")
          case None
          with Parsed JObj True show ?thesis by (simp add: Let_def)
        next
          case (Some k)
          let ?a1 = "if map_of album ''id'' = None
                     then AList.update ''id'' (JStr (uuid1 n1)) album else album"
          let ?a2 = "if map_of album ''id'' = None
                     then AList.update ''id'' (JStr (uuid2 n2)) album else album"
          have "py_get ?a1 ''itemCount'' = py_get ?a2 ''itemCount''"
            by (simp add: py_get_def update_conv')
          then have "count_view (AList.update k ?a1 acc1) = count_view (AList.update k ?a2 acc2)"
            using Cons.prems by (simp add: count_view_update)
          from Cons.IH[OF this] Parsed JObj True Some show ?thesis
            by (simp add: Let_def)
        qed
      qed
    qed (use Parsed in simp_all)
  qed
qed

lemma read_existing_same_counts:
  "count_view (fst (read_existing_albums uuid1 f n1)) =
   count_view (fst (read_existing_albums uuid2 f n2))"
proof (cases "read_loop uuid1 f [] n1")
  case (Inl e)
  with read_loop_same_counts[of "[]" "[]" uuid1 f n1 uuid2 n2]
  have "read_loop uuid2 f [] n2 = Inl e" by simp
  with Inl show ?thesis by (simp add: read_existing_albums_def)
next
  case (Inr R1)
  with read_loop_same_counts[of "[]" "[]" uuid1 f n1 uuid2 n2]
  obtain R2 where "read_loop uuid2 f [] n2 = Inr R2" "count_view (fst R1) = count_view (fst R2)"
    by auto
  with Inr show ?thesis by (simp add: read_existing_albums_def)
qed

lemma py_eq_str: "py_eq x (JStr s) \<longleftrightarrow> x = JStr s"
  by (cases x) auto

text \<open>What a run of \<^verbatim>\<open>main\<close> on a batch comes to.\<close>

lemma main_ingest_bulk:
  assumes bulk: "py_eq (py_get d ''type'') (JStr ''bulk'')"
    and run: "main_ingest uuid cy (JObj d) f = Reported un up ad w"
  obtains inputs d1 n1 where
    "map_of d ''error'' = None"
    "truthy (py_get_default d ''albums'' (JArr []))"
    "py_iter (py_get_default d ''albums'' (JArr [])) = Inr inputs"
    "bulk_loop uuid inputs (fst (read_existing_albums uuid f 0)) [] [] []
       (snd (read_existing_albums uuid f 0)) = Inr (d1, un, up, ad, n1)"
    "w = (if up \<noteq> [] \<or> ad \<noteq> [] then Some (write_albums_database d1) else None)"
proof -
  from bulk have t: "py_get d ''type'' = JStr ''bulk''" by (simp add: py_eq_str)
  from run have e: "map_of d ''error'' = None"
    by (auto simp: main_ingest_def split: if_splits)
  obtain d0 n0 where r: "read_existing_albums uuid f 0 = (d0, n0)"
    by (cases "read_existing_albums uuid f 0") auto
  from run t e r have tr: "truthy (py_get_default d ''albums'' (JArr []))"
    by (auto simp: main_ingest_def Let_def split: if_splits)
  from run t e r tr obtain d1 n1 where
    p: "process_bulk_albums uuid (py_get_default d ''albums'' (JArr [])) d0 n0
          = Inr (d1, un, up, ad, n1)"
    and w: "w = (if up \<noteq> [] \<or> ad \<noteq> [] then Some (write_albums_database d1) else None)"
    by (auto simp: main_ingest_def Let_def finish_ingest_def split: sum.splits)
  from p obtain inputs where i: "py_iter (py_get_default d ''albums'' (JArr [])) = Inr inputs"
    and l: "bulk_loop uuid inputs d0 [] [] [] n0 = Inr (d1, un, up, ad, n1)"
    by (auto simp: process_bulk_albums_def split: sum.splits)
  from that[OF e tr i] l w r show thesis by simp
qed

text \<open>
  Claim C3. A run of the ingest writes the store file exactly when it reports an updated
  or a new album: a run whose outcomes are all unchanged writes nothing. And a second
  run of a batch on the store that the first run left, with the same input, reports no
  new and no updated album and writes nothing, whatever identifiers it generates.
\<close>

theorem ingest_batch_idempotent:
  "(main_ingest uuid cy data f = Reported un up ad w \<longrightarrow>
      (w = None \<longleftrightarrow> up = [] \<and> ad = [])) \<and>
   (py_eq (py_get d ''type'') (JStr ''bulk'') \<and>
    main_ingest uuid1 cy1 (JObj d) f = Reported un1 up1 ad1 w1 \<longrightarrow>
      (\<exists>un2. main_ingest uuid2 cy2 (JObj d) (case w1 of None \<Rightarrow> f | Some f' \<Rightarrow> f')
               = Reported un2 [] [] None))"
proof (intro conjI impI)
  assume "main_ingest uuid cy data f = Reported un up ad w"
  then show "w = None \<longleftrightarrow> up = [] \<and> ad = []"
    by (auto simp: main_ingest_def finish_ingest_def Let_def
        split: json.splits if_splits prod.splits sum.splits)
next
  assume a: "py_eq (py_get d ''type'') (JStr ''bulk'') \<and>
    main_ingest uuid1 cy1 (JObj d) f = Reported un1 up1 ad1 w1"
  then have bulk: "py_eq (py_get d ''type'') (JStr ''bulk'')"
    and run: "main_ingest uuid1 cy1 (JObj d) f = Reported un1 up1 ad1 w1" by simp_all
  let ?f1 = "case w1 of None \<Rightarrow> f | Some f' \<Rightarrow> f'"
  let ?d0 = "fst (read_existing_albums uuid1 f 0)"
  let ?D2 = "fst (read_existing_albums uuid2 ?f1 0)"
  let ?m = "snd (read_existing_albums uuid2 ?f1 0)"
  from bulk run obtain inputs d1 n1 where
    e: "map_of d ''error'' = None"
    and tr: "truthy (py_get_default d ''albums'' (JArr []))"
    and it: "py_iter (py_get_default d ''albums'' (JArr [])) = Inr inputs"
    and loop: "bulk_loop uuid1 inputs ?d0 [] [] [] (snd (read_existing_albums uuid1 f 0))
                 = Inr (d1, un1, up1, ad1, n1)"
    and w: "w1 = (if up1 \<noteq> [] \<or> ad1 \<noteq> [] then Some (write_albums_database d1) else None)"
    by (rule main_ingest_bulk)
  have wf: "list_all wf_input inputs" using bulk_loop_wf[OF loop] .
  have s1: "list_all (settled d1) inputs" using bulk_loop_settles[OF loop] by simp
  have s2: "list_all (settled ?D2) inputs"
  proof (cases "up1 \<noteq> [] \<or> ad1 \<noteq> []")
    case True
    have "well_keyed d1"
      using bulk_loop_well_keyed[OF loop read_existing_well_keyed] by simp
    then have "?D2 = d1" using True w by (simp add: read_written)
    with s1 show ?thesis by simp
  next
    case False
    then have "count_view d1 = count_view ?d0" using bulk_loop_quiet[OF loop] by simp
    moreover have "count_view ?D2 = count_view ?d0"
      using False w read_existing_same_counts[of uuid2 f 0 uuid1 0] by simp
    ultimately have "count_view ?D2 = count_view d1" by simp
    from settled_cong[OF this] s1 show ?thesis by (simp add: list_all_iff)
  qed
  from bulk_loop_second_run[OF wf s2, of uuid2 "[]" "[]" "[]" ?m]
  obtain d' un' n' where l2: "bulk_loop uuid2 inputs ?D2 [] [] [] ?m = Inr (d', un', [], [], n')"
    by blast
  from bulk have t: "py_get d ''type'' = JStr ''bulk''" by (simp add: py_eq_str)
  obtain D m where r2: "read_existing_albums uuid2 ?f1 0 = (D, m)"
    by (cases "read_existing_albums uuid2 ?f1 0") auto
  with l2 have l2': "bulk_loop uuid2 inputs D [] [] [] m = Inr (d', un', [], [], n')" by simp
  have "main_ingest uuid2 cy2 (JObj d) ?f1 = Reported un' [] [] None"
    using e t tr it r2 l2'
    by (simp add: main_ingest_def Let_def process_bulk_albums_def finish_ingest_def)
  then show "\<exists>un2. main_ingest uuid2 cy2 (JObj d) ?f1 = Reported un2 [] [] None" by blast
qed

text \<open>
  The theorem at a batch of two candidates for one new url, without items and with five,
  on a store of one other record: the first run reports the album as new and as updated
  and writes the store, the second run reports it twice as unchanged.
\<close>

theorem ingest_batch_idempotent_witness:
  "py_eq (py_get [(''type'', JStr ''bulk''),
                  (''albums'', JArr [JObj [(''url'', JStr ''u''), (''itemCount'', JInt 0)],
                                     JObj [(''url'', JStr ''u''), (''itemCount'', JInt 5)]])]
            ''type'') (JStr ''bulk'') \<and>
   main_ingest (\<lambda>n. ''n1'') 2026
     (JObj [(''type'', JStr ''bulk''),
            (''albums'', JArr [JObj [(''url'', JStr ''u''), (''itemCount'', JInt 0)],
                               JObj [(''url'', JStr ''u''), (''itemCount'', JInt 5)]])])
     [Parsed (JObj [(''url'', JStr ''v''), (''id'', JStr ''a1'')])]
   = Reported [] [JStr ''n1''] [JStr ''n1'']
       (Some [Parsed (JObj [(''url'', JStr ''v''), (''id'', JStr ''a1'')]),
              Parsed (JObj [(''id'', JStr ''n1''), (''url'', JStr ''u''),
                            (''title'', JStr ''Untitled Album''), (''tags'', JArr []),
                            (''itemCount'', JInt 5)])]) \<and>
   (\<exists>un2. main_ingest (\<lambda>n. ''n2'') 2027
            (JObj [(''type'', JStr ''bulk''),
                   (''albums'', JArr [JObj [(''url'', JStr ''u''), (''itemCount'', JInt 0)],
                                      JObj [(''url'', JStr ''u''), (''itemCount'', JInt 5)]])])
            [Parsed (JObj [(''url'', JStr ''v''), (''id'', JStr ''a1'')]),
             Parsed (JObj [(''id'', JStr ''n1''), (''url'', JStr ''u''),
                           (''title'', JStr ''Untitled Album''), (''tags'', JArr []),
                           (''itemCount'', JInt 5)])]
          = Reported un2 [] [] None)"
proof -
  let ?d = "[(''type'', JStr ''bulk''),
             (''albums'', JArr [JObj [(''url'', JStr ''u''), (''itemCount'', JInt 0)],
                                JObj [(''url'', JStr ''u''), (''itemCount'', JInt 5)]])]"
  let ?f = "[Parsed (JObj [(''url'', JStr ''v''), (''id'', JStr ''a1'')])]"
  let ?f1 = "[Parsed (JObj [(''url'', JStr ''v''), (''id'', JStr ''a1'')]),
              Parsed (JObj [(''id'', JStr ''n1''), (''url'', JStr ''u''),
                            (''title'', JStr ''Untitled Album''), (''tags'', JArr []),
                            (''itemCount'', JInt 5)])]"
  have b: "py_eq (py_get ?d ''type'') (JStr ''bulk'')" by (simp add: py_get_def)
  have r: "main_ingest (\<lambda>n. ''n1'') 2026 (JObj ?d) ?f
             = Reported [] [JStr ''n1''] [JStr ''n1''] (Some ?f1)"
    by code_simp
  from ingest_batch_idempotent[where d = ?d and ?uuid1.0 = "\<lambda>n. ''n1''" and ?cy1.0 = 2026
      and f = ?f and ?un1.0 = "[]" and ?up1.0 = "[JStr ''n1'']" and ?ad1.0 = "[JStr ''n1'']"
      and ?w1.0 = "Some ?f1" and ?uuid2.0 = "\<lambda>n. ''n2''" and ?cy2.0 = 2027] b r
  have "\<exists>un2. main_ingest (\<lambda>n. ''n2'') 2027 (JObj ?d)
               (case Some ?f1 of None \<Rightarrow> ?f | Some f' \<Rightarrow> f') = Reported un2 [] [] None"
    by blast
  then have s: "\<exists>un2. main_ingest (\<lambda>n. ''n2'') 2027 (JObj ?d) ?f1 = Reported un2 [] [] None"
    by simp
  show ?thesis by (rule conjI[OF b conjI[OF r s]])
qed

section \<open>Who changes a title\<close>








end
